theory Spec2Isabelle
  imports Complex_Main
begin

section \<open>MantraLekhan: the page grid, its persistence and its PDF layout\<close>

text \<open>
  A shallow embedding of \<^verbatim>\<open>src/frontend/src/App.jsx\<close>. The component keeps one piece of
  React state, \<^verbatim>\<open>pages\<close>: an array of page arrays, each page an array of cell values.
  The outer array is copied before every update; the page arrays are shared between the
  copies and written in place by \<^verbatim>\<open>handleChange\<close>, so they live in an explicit store.
\<close>

subsection \<open>JavaScript values\<close>

text \<open>
  A JavaScript number is a double: a finite value is a rational, and there are the two
  infinities and NaN (\<^verbatim>\<open>JSON.parse("1e999")\<close> is \<^verbatim>\<open>Infinity\<close>). Both zeros are
  \<open>Finite 0\<close>. Strings are kept as byte strings (UTF-8): the code only compares strings
  and tests them for emptiness.
\<close>

datatype jsnum = NaN | Infinite bool | Finite rat

datatype jsval =
    JUndefined
  | JNull
  | JBool bool
  | JNum jsnum
  | JStr string
  | JArr "jsval list"
  | JObj "(string \<times> jsval) list"

text \<open>
  What can be thrown: \<^verbatim>\<open>JSON.parse\<close> throws a \<^verbatim>\<open>SyntaxError\<close>, an assignment through
  \<^verbatim>\<open>undefined\<close> a \<^verbatim>\<open>TypeError\<close>, the access to \<^verbatim>\<open>localStorage\<close> a \<^verbatim>\<open>SecurityError\<close>
  where the browser blocks storage; \<open>RenderError\<close> stands for a rendering that failed.
\<close>

datatype error = SyntaxError | TypeError | SecurityError | RenderError

text \<open>Truthiness, as the conditional operator and \<^verbatim>\<open>||\<close> test it.\<close>

fun truthy :: "jsval \<Rightarrow> bool" where
  "truthy JUndefined = False"
| "truthy JNull = False"
| "truthy (JBool b) = b"
| "truthy (JNum NaN) = False"
| "truthy (JNum (Infinite _)) = True"
| "truthy (JNum (Finite q)) = (q \<noteq> 0)"
| "truthy (JStr s) = (s \<noteq> [])"
| "truthy (JArr _) = True"
| "truthy (JObj _) = True"

text \<open>\<^verbatim>\<open>a || b\<close>\<close>

definition js_or :: "jsval \<Rightarrow> jsval \<Rightarrow> jsval" where
  "js_or a b = (if truthy a then a else b)"

text \<open>\<^verbatim>\<open>xs[i]\<close> on an array: reading past the end (or a hole) gives \<^verbatim>\<open>undefined\<close>.\<close>

definition js_index :: "jsval list \<Rightarrow> nat \<Rightarrow> jsval" where
  "js_index xs i = (if i < length xs then xs ! i else JUndefined)"

text \<open>
  \<^verbatim>\<open>xs[i] = v\<close> on an array: writing past the end extends the array, the cells in
  between are holes (read as \<^verbatim>\<open>undefined\<close>).
\<close>

definition js_set :: "jsval list \<Rightarrow> nat \<Rightarrow> jsval \<Rightarrow> jsval list" where
  "js_set xs i v =
     (if i < length xs then xs[i := v]
      else xs @ replicate (i - length xs) JUndefined @ [v])"

subsection \<open>Constants\<close>

definition cellsPerPage :: nat where
  "cellsPerPage = 100"

definition columns :: nat where
  "columns = 5"

definition maxPages :: nat where
  "maxPages = 5"

text \<open>\<^verbatim>\<open>Array(cellsPerPage).fill('')\<close>\<close>

definition blankPage :: "jsval list" where
  "blankPage = replicate cellsPerPage (JStr [])"

subsection \<open>Restoring the saved pages\<close>

text \<open>
  \<^verbatim>\<open>Array.isArray(p) && p.length === cellsPerPage\<close>, the test applied to every element.
\<close>

fun isPage :: "jsval \<Rightarrow> bool" where
  "isPage (JArr cells) = (length cells = cellsPerPage)"
| "isPage _ = False"

text \<open>
  \<^verbatim>\<open>Array.isArray(parsed) && parsed.length > 0 && parsed.every(p => ...)\<close>
\<close>

fun shapeOk :: "jsval \<Rightarrow> bool" where
  "shapeOk (JArr ps) = (0 < length ps \<and> list_all isPage ps)"
| "shapeOk _ = False"

text \<open>
  The body of the \<^verbatim>\<open>try\<close> block. \<open>saved\<close> is what \<^verbatim>\<open>localStorage.getItem\<close> returned
  (\<open>None\<close> for \<^verbatim>\<open>null\<close>); \<open>JSON_parse\<close> is the platform's parser, \<open>Inl\<close> when it throws.
  A falsy \<open>saved\<close> (\<^verbatim>\<open>null\<close> or the empty string) is not parsed. \<open>Inr None\<close> is the
  block left without \<^verbatim>\<open>return\<close>.
\<close>

definition tryRestore ::
  "(string \<Rightarrow> error + jsval) \<Rightarrow> string option \<Rightarrow> error + jsval option" where
  "tryRestore JSON_parse saved =
     (case (case saved of
              None \<Rightarrow> Inr JNull
            | Some s \<Rightarrow> if s \<noteq> [] then JSON_parse s else Inr JNull) of
        Inl e \<Rightarrow> Inl e
      | Inr parsed \<Rightarrow> if shapeOk parsed then Inr (Some parsed) else Inr None)"

text \<open>
  \<^verbatim>\<open>initializePages\<close>. \<open>getItem\<close> is the outcome of the first statement,
  \<^verbatim>\<open>const saved = localStorage.getItem('mantraPages')\<close>: \<open>Inr saved\<close> when it returns,
  \<open>Inl\<close> when it throws. The statement stands before the \<^verbatim>\<open>try\<close>, so its exception
  leaves the function. An exception inside the \<^verbatim>\<open>try\<close> is caught and logged, and control
  falls through to the final \<^verbatim>\<open>return [Array(cellsPerPage).fill('')]\<close>.
\<close>

definition initializePages ::
  "(string \<Rightarrow> error + jsval) \<Rightarrow> error + string option \<Rightarrow> error + jsval" where
  "initializePages JSON_parse getItem =
     (case getItem of
        Inl e \<Rightarrow> Inl e
      | Inr saved \<Rightarrow>
          (case tryRestore JSON_parse saved of
             Inr (Some parsed) \<Rightarrow> Inr parsed
           | Inr None \<Rightarrow> Inr (JArr [JArr blankPage])
           | Inl e \<Rightarrow> Inr (JArr [JArr blankPage])))"

subsection \<open>The application state\<close>

text \<open>
  The page arrays are objects: \<open>heap\<close> holds them, an address is an index into it, and a
  new array is appended. \<open>pages\<close> is the React state, the array of references to the
  pages in order. \<open>alerts\<close> are the messages shown by \<^verbatim>\<open>alert\<close>, \<open>focused\<close> the
  input holding the focus (the input with id \<^verbatim>\<open>cell-p-c\<close> is the pair \<open>(p, c)\<close>),
  \<open>downloads\<close> the files offered to the user.
\<close>

record app =
  heap :: "jsval list list"
  pages :: "nat list"
  alerts :: "string list"
  focused :: "(nat \<times> nat) option"
  downloads :: "(string \<times> string) list"

text \<open>The document a state denotes: the pages read through their references.\<close>

definition docOf :: "app \<Rightarrow> jsval list list" where
  "docOf s = map (\<lambda>a. heap s ! a) (pages s)"

text \<open>References are allocated and no page object occurs twice in the document.\<close>

definition wfApp :: "app \<Rightarrow> bool" where
  "wfApp s = (distinct (pages s) \<and> list_all (\<lambda>a. a < length (heap s)) (pages s))"

text \<open>The shape of section 3 of the specification: 1 to 5 pages of 100 cells each.\<close>

definition docShape :: "jsval list list \<Rightarrow> bool" where
  "docShape d =
     (1 \<le> length d \<and> length d \<le> maxPages \<and> list_all (\<lambda>p. length p = cellsPerPage) d)"

definition alloc :: "jsval list \<Rightarrow> jsval list list \<Rightarrow> nat \<times> jsval list list" where
  "alloc arr h = (length h, h @ [arr])"

text \<open>
  \<^verbatim>\<open>useState(initializePages)\<close>: the value returned by \<^verbatim>\<open>initializePages\<close> becomes the
  first state (when it throws, the component does not mount). Its page arrays were built by \<^verbatim>\<open>JSON.parse\<close> or by \<^verbatim>\<open>Array\<close>, one
  object each. \<open>None\<close> when the value is not an array of arrays.
\<close>

fun arrayItems :: "jsval \<Rightarrow> jsval list option" where
  "arrayItems (JArr xs) = Some xs"
| "arrayItems _ = None"

definition mountApp :: "jsval \<Rightarrow> app option" where
  "mountApp v =
     (case arrayItems v of
        None \<Rightarrow> None
      | Some ps \<Rightarrow>
          (case those (map arrayItems ps) of
             None \<Rightarrow> None
           | Some d \<Rightarrow>
               Some \<lparr>heap = d, pages = [0..<length d], alerts = [], focused = None,
                     downloads = []\<rparr>))"

subsection \<open>The event handlers\<close>

text \<open>
  \<^verbatim>\<open>handleChange\<close>: \<^verbatim>\<open>newPages = [...pages]\<close> copies the references only, so the
  assignment writes the page object itself. With \<open>pageIndex\<close> past the end,
  \<^verbatim>\<open>newPages[pageIndex]\<close> is \<^verbatim>\<open>undefined\<close> and the assignment throws before anything is
  written. \<open>v\<close> is \<^verbatim>\<open>e.target.value\<close>, a string.
\<close>

definition handleChange :: "nat \<Rightarrow> nat \<Rightarrow> string \<Rightarrow> app \<Rightarrow> error + app" where
  "handleChange pageIndex cellIndex v s =
     (let newPages = pages s in
      if pageIndex < length newPages then
        (let a = newPages ! pageIndex in
         Inr (s\<lparr>heap := (heap s)[a := js_set (heap s ! a) cellIndex (JStr v)],
                pages := newPages\<rparr>))
      else Inl TypeError)"

text \<open>
  The inputs in the DOM: one per cell of every page (\<^verbatim>\<open>page.map\<close> visits no hole), so
  \<^verbatim>\<open>document.querySelector\<close> finds \<^verbatim>\<open>#cell-p-c\<close> exactly for these.
\<close>

definition hasInput :: "app \<Rightarrow> nat \<Rightarrow> nat \<Rightarrow> bool" where
  "hasInput s p c =
     (p < length (pages s) \<and> c < length (docOf s ! p) \<and> docOf s ! p ! c \<noteq> JUndefined)"

text \<open>\<^verbatim>\<open>nextPageIndex\<close> and \<^verbatim>\<open>nextIndex\<close> of \<^verbatim>\<open>handleKeyDown\<close>.\<close>

definition nextCell :: "nat \<Rightarrow> nat \<Rightarrow> nat \<times> nat" where
  "nextCell pageIndex cellIndex =
     (let nextIndex = (cellIndex + 1) mod cellsPerPage;
          nextPageIndex = pageIndex + (cellIndex + 1) div cellsPerPage
      in (nextPageIndex, nextIndex))"

text \<open>
  \<^verbatim>\<open>handleKeyDown\<close>; \<open>key\<close> is \<^verbatim>\<open>e.key\<close>. (\<^verbatim>\<open>e.preventDefault()\<close> only cancels the
  browser's own handling of the key.)
\<close>

definition handleKeyDown :: "string \<Rightarrow> nat \<Rightarrow> nat \<Rightarrow> app \<Rightarrow> app" where
  "handleKeyDown key pageIndex cellIndex s =
     (if key = ''Enter'' then
        (case nextCell pageIndex cellIndex of
           (nextPageIndex, nextIndex) \<Rightarrow>
             if hasInput s nextPageIndex nextIndex
             then s\<lparr>focused := Some (nextPageIndex, nextIndex)\<rparr>
             else s)
      else s)"

text \<open>
  \<^verbatim>\<open>addPage\<close>. The test reads \<^verbatim>\<open>pages\<close> and the updater receives
  \<^verbatim>\<open>prevPages\<close>: both are the current state, since a click handler runs on the latest
  render.
\<close>

definition addPage :: "app \<Rightarrow> app" where
  "addPage s =
     (if length (pages s) \<ge> maxPages then
        s\<lparr>alerts := alerts s @ [''Maximum 5 pages allowed.'']\<rparr>
      else
        (case alloc blankPage (heap s) of
           (newPage, h) \<Rightarrow> s\<lparr>heap := h, pages := pages s @ [newPage]\<rparr>))"

text \<open>\<^verbatim>\<open>xs.splice(i, 1)\<close> for an index \<open>i \<ge> 0\<close>: past the end nothing is removed.\<close>

definition splice1 :: "'a list \<Rightarrow> nat \<Rightarrow> 'a list" where
  "splice1 xs i = take i xs @ drop (i + 1) xs"

text \<open>
  \<^verbatim>\<open>removePage\<close>; \<open>confirmDelete\<close> is the answer of \<^verbatim>\<open>window.confirm\<close>. The blank page
  is built only when the copy is empty after the splice.
\<close>

definition removePage :: "bool \<Rightarrow> nat \<Rightarrow> app \<Rightarrow> app" where
  "removePage confirmDelete index s =
     (if \<not> confirmDelete then s
      else
        (let newPages = splice1 (pages s) index in
         if length newPages \<noteq> 0 then s\<lparr>pages := newPages\<rparr>
         else
           (case alloc blankPage (heap s) of
              (fresh, h) \<Rightarrow> s\<lparr>heap := h, pages := [fresh]\<rparr>)))"

text \<open>\<^verbatim>\<open>resetAll\<close>; \<open>confirmReset\<close> is the answer of \<^verbatim>\<open>window.confirm\<close>.\<close>

definition resetAll :: "bool \<Rightarrow> app \<Rightarrow> app" where
  "resetAll confirmReset s =
     (if \<not> confirmReset then s
      else
        (case alloc blankPage (heap s) of
           (fresh, h) \<Rightarrow> s\<lparr>heap := h, pages := [fresh]\<rparr>))"

subsection \<open>The PDF document\<close>

text \<open>The header text of every page, as UTF-8 bytes.\<close>

definition headerLabel :: string where
  "headerLabel =
     [CHR 0xE0, CHR 0xAA, CHR 0x9C, CHR 0xE0, CHR 0xAA, CHR 0xAF, CHR 0x20, CHR 0xE0,
      CHR 0xAA, CHR 0xB8, CHR 0xE0, CHR 0xAB, CHR 0x8D, CHR 0xE0, CHR 0xAA, CHR 0xB5,
      CHR 0xE0, CHR 0xAA, CHR 0xBE, CHR 0xE0, CHR 0xAA, CHR 0xAE, CHR 0xE0, CHR 0xAA,
      CHR 0xBF, CHR 0xE0, CHR 0xAA, CHR 0xA8, CHR 0xE0, CHR 0xAA, CHR 0xBE, CHR 0xE0,
      CHR 0xAA, CHR 0xB0, CHR 0xE0, CHR 0xAA, CHR 0xBE, CHR 0xE0, CHR 0xAA, CHR 0xAF,
      CHR 0xE0, CHR 0xAA, CHR 0xA3]"

text \<open>
  One \<^verbatim>\<open>Page\<close> element: the header text, the children of the page-number text
  (\<^verbatim>\<open>Page \<close> and \<^verbatim>\<open>pageIndex + 1\<close>), and the rows of the grid, each cell the child of
  its \<^verbatim>\<open>Text\<close>. Keys and styles are left out.
\<close>

record pdfPage =
  header :: string
  pageNumber :: "string \<times> nat"
  grid :: "jsval list list"

text \<open>The \<^verbatim>\<open>View\<close> of one row and of the whole grid.\<close>

definition pdfRow :: "jsval list \<Rightarrow> nat \<Rightarrow> jsval list" where
  "pdfRow page rowIndex =
     map (\<lambda>colIndex.
            let cellIndex = rowIndex * 5 + colIndex
            in js_or (js_index page cellIndex) (JStr '' ''))
         [0..<5]"

definition pdfGrid :: "jsval list \<Rightarrow> jsval list list" where
  "pdfGrid page = map (pdfRow page) [0..<20]"

text \<open>\<^verbatim>\<open>MantraPDF\<close>: \<^verbatim>\<open>pages.map((page, pageIndex) => ...)\<close>\<close>

definition MantraPDF :: "jsval list list \<Rightarrow> pdfPage list" where
  "MantraPDF pgs =
     map (\<lambda>(pageIndex, page).
            \<lparr>header = headerLabel, pageNumber = (''Page '', pageIndex + 1),
             grid = pdfGrid page\<rparr>)
         (enumerate 0 pgs)"

text \<open>
  \<^verbatim>\<open>downloadPDF\<close>; \<open>toBlob\<close> is the PDF library rendering the element tree, \<open>Inl\<close> when
  its promise is rejected: the handler then ends there, with the state as it was.
\<close>

definition downloadPDF ::
  "(pdfPage list \<Rightarrow> error + string) \<Rightarrow> app \<Rightarrow> error option \<times> app" where
  "downloadPDF toBlob s =
     (case toBlob (MantraPDF (docOf s)) of
        Inl e \<Rightarrow> (Some e, s)
      | Inr blob \<Rightarrow> (None, s\<lparr>downloads := downloads s @ [(''mantralekhan.pdf'', blob)]\<rparr>))"

subsection \<open>The states the application reaches\<close>

text \<open>
  The first state is mounted from what \<^verbatim>\<open>initializePages\<close> returned; every later state
  comes from one of the handlers. (A handler that throws sets no state.)
\<close>

inductive reachable ::
  "(string \<Rightarrow> error + jsval) \<Rightarrow> error + string option \<Rightarrow> app \<Rightarrow> bool"
  for JSON_parse getItem where
  mounted: "initializePages JSON_parse getItem = Inr v \<Longrightarrow> mountApp v = Some s \<Longrightarrow>
     reachable JSON_parse getItem s"
| changed: "reachable JSON_parse getItem s \<Longrightarrow> handleChange p c v s = Inr s' \<Longrightarrow>
     reachable JSON_parse getItem s'"
| keyed: "reachable JSON_parse getItem s \<Longrightarrow>
     reachable JSON_parse getItem (handleKeyDown key p c s)"
| added: "reachable JSON_parse getItem s \<Longrightarrow> reachable JSON_parse getItem (addPage s)"
| removed: "reachable JSON_parse getItem s \<Longrightarrow>
     reachable JSON_parse getItem (removePage b i s)"
| cleared: "reachable JSON_parse getItem s \<Longrightarrow>
     reachable JSON_parse getItem (resetAll b s)"
| downloaded: "reachable JSON_parse getItem s \<Longrightarrow>
     reachable JSON_parse getItem (snd (downloadPDF toBlob s))"

subsection \<open>Sample data\<close>

text \<open>
  A saved document of six pages, every cell holding \<^verbatim>\<open>Ram\<close>, and its JSON text (\<open>0x22\<close>
  is the double quote).
\<close>

definition sixPages :: jsval where
  "sixPages = JArr (replicate 6 (JArr (replicate 100 (JStr ''Ram''))))"

definition pageText :: string where
  "pageText =
     ''['' @ concat (replicate 99 (CHR 0x22 # ''Ram'' @ [CHR 0x22, CHR '','']))
       @ CHR 0x22 # ''Ram'' @ [CHR 0x22] @ '']''"

definition sixPagesText :: string where
  "sixPagesText = ''['' @ concat (replicate 5 (pageText @ '','')) @ pageText @ '']''"

text \<open>A parser that agrees with \<^verbatim>\<open>JSON.parse\<close> on the texts used below.\<close>

definition sampleParse :: "string \<Rightarrow> error + jsval" where
  "sampleParse s =
     (if s = ''null'' then Inr JNull
      else if s = ''[]'' then Inr (JArr [])
      else if s = ''[[]]'' then Inr (JArr [JArr []])
      else if s = sixPagesText then Inr sixPages
      else Inl SyntaxError)"

text \<open>
  Three states: a fresh application, one with a second page filled with \<^verbatim>\<open>A\<close>, and a
  full one.
\<close>

definition onePage :: app where
  "onePage =
     \<lparr>heap = [blankPage], pages = [0], alerts = [], focused = None, downloads = []\<rparr>"

definition twoPages :: app where
  "twoPages =
     \<lparr>heap = [blankPage, replicate 100 (JStr ''A'')], pages = [0, 1], alerts = [],
      focused = None, downloads = []\<rparr>"

definition fivePages :: app where
  "fivePages =
     \<lparr>heap = replicate 5 blankPage, pages = [0, 1, 2, 3, 4], alerts = [],
      focused = None, downloads = []\<rparr>"

section \<open>Properties\<close>

subsection \<open>Arrays\<close>

lemma length_js_set_in: "c < length xs \<Longrightarrow> length (js_set xs c v) = length xs"
  by (simp add: js_set_def)

lemma nth_js_set_in:
  "c < length xs \<Longrightarrow> k < length xs \<Longrightarrow> js_set xs c v ! k = (if k = c then v else xs ! k)"
  by (simp add: js_set_def)

text \<open>Writing the same value to the same index again changes nothing, in or out of range.\<close>

lemma js_set_twice: "js_set (js_set xs c v) c v = js_set xs c v"
  by (simp add: js_set_def list_update_append)

lemma splice1_in: "i < length xs \<Longrightarrow> length (splice1 xs i) = length xs - 1"
  by (simp add: splice1_def)

lemma splice1_map: "splice1 (map f xs) i = map f (splice1 xs i)"
  by (simp add: splice1_def take_map drop_map)

lemma distinct_splice1: "distinct xs \<Longrightarrow> distinct (splice1 xs i)"
  by (simp add: splice1_def set_take_disj_set_drop_if_distinct)

lemma set_splice1: "set (splice1 xs i) \<subseteq> set xs"
  unfolding splice1_def using set_take_subset set_drop_subset by fastforce

text \<open>Rows of \<open>n\<close> cells laid out one after the other are the cells in row-major order.\<close>

lemma concat_rows:
  "concat (map (\<lambda>r. map (\<lambda>c. f (r * n + c)) [0..<n]) [0..<m]) = map f [0..<m * n]"
proof (induction m)
  case 0
  then show ?case by simp
next
  case (Suc m)
  have "map (\<lambda>c. f (m * n + c)) [0..<n] = map f (map (\<lambda>c. c + m * n) [0..<n])"
    by (simp add: add.commute)
  also have "\<dots> = map f [m * n..<n + m * n]"
    by (simp only: map_add_upt)
  finally have row: "map (\<lambda>c. f (m * n + c)) [0..<n] = map f [m * n..<n + m * n]" .
  have "[0..<Suc m * n] = [0..<m * n] @ [m * n..<n + m * n]"
    by (metis add.commute le_add1 mult_Suc upt_add_eq_append add.left_neutral)
  with Suc row show ?case by simp
qed

subsection \<open>The document behind the references\<close>

lemma length_docOf [simp]: "length (docOf s) = length (pages s)"
  by (simp add: docOf_def)

lemma nth_docOf: "q < length (pages s) \<Longrightarrow> docOf s ! q = heap s ! (pages s ! q)"
  by (simp add: docOf_def)

lemma wfApp_bound: "wfApp s \<Longrightarrow> q < length (pages s) \<Longrightarrow> pages s ! q < length (heap s)"
  by (simp add: wfApp_def list_all_length)

lemma wfApp_inj:
  "wfApp s \<Longrightarrow> q < length (pages s) \<Longrightarrow> p < length (pages s) \<Longrightarrow>
   pages s ! q = pages s ! p \<Longrightarrow> q = p"
  by (simp add: wfApp_def nth_eq_iff_index_eq)

subsection \<open>The handlers, read on the document\<close>

lemma handleChange_Inr:
  "p < length (pages s) \<Longrightarrow>
   handleChange p c v s =
     Inr (s\<lparr>heap := (heap s)[pages s ! p := js_set (heap s ! (pages s ! p)) c (JStr v)]\<rparr>)"
  by (simp add: handleChange_def Let_def)

lemma handleChange_no_page: "length (pages s) \<le> p \<Longrightarrow> handleChange p c v s = Inl TypeError"
  by (simp add: handleChange_def Let_def)

text \<open>
  The write reaches one page object. As no object occurs twice in the document, it
  reaches one page of the document.
\<close>

lemma handleChange_doc:
  assumes wf: "wfApp s" and p: "p < length (pages s)"
    and h: "handleChange p c v s = Inr s'"
  shows "docOf s' = (docOf s)[p := js_set (docOf s ! p) c (JStr v)]"
proof (rule nth_equalityI)
  from h p have s': "s' =
      s\<lparr>heap := (heap s)[pages s ! p := js_set (heap s ! (pages s ! p)) c (JStr v)]\<rparr>"
    by (simp add: handleChange_Inr)
  show "length (docOf s') = length ((docOf s)[p := js_set (docOf s ! p) c (JStr v)])"
    by (simp add: s')
  fix q assume "q < length (docOf s')"
  then have q: "q < length (pages s)" by (simp add: s')
  show "docOf s' ! q = (docOf s)[p := js_set (docOf s ! p) c (JStr v)] ! q"
  proof (cases "q = p")
    case True
    with wf p show ?thesis
      by (simp add: s' nth_docOf wfApp_bound)
  next
    case False
    with wf p q have "pages s ! q \<noteq> pages s ! p"
      using wfApp_inj by blast
    with False q p show ?thesis
      by (simp add: s' nth_docOf)
  qed
qed

lemma handleChange_twice:
  assumes wf: "wfApp s" and h: "handleChange p c v s = Inr s'"
  shows "handleChange p c v s' = Inr s'"
proof -
  from h have p: "p < length (pages s)"
    by (simp add: handleChange_def Let_def split: if_splits)
  with h have s': "s' =
      s\<lparr>heap := (heap s)[pages s ! p := js_set (heap s ! (pages s ! p)) c (JStr v)]\<rparr>"
    by (simp add: handleChange_Inr)
  from wf p have b: "pages s ! p < length (heap s)" by (rule wfApp_bound)
  from p have "handleChange p c v s' =
     Inr (s'\<lparr>heap := (heap s')[pages s' ! p := js_set (heap s' ! (pages s' ! p)) c (JStr v)]\<rparr>)"
    by (simp add: handleChange_Inr s')
  also have "\<dots> = Inr s'"
    using b by (simp add: s' js_set_twice)
  finally show ?thesis .
qed

lemma addPage_full:
  "maxPages \<le> length (pages s) \<Longrightarrow>
   addPage s = s\<lparr>alerts := alerts s @ [''Maximum 5 pages allowed.'']\<rparr>"
  by (simp add: addPage_def)

lemma addPage_room:
  "length (pages s) < maxPages \<Longrightarrow>
   addPage s = s\<lparr>heap := heap s @ [blankPage], pages := pages s @ [length (heap s)]\<rparr>"
  by (simp add: addPage_def alloc_def)

lemma addPage_doc:
  "wfApp s \<Longrightarrow> length (pages s) < maxPages \<Longrightarrow> docOf (addPage s) = docOf s @ [blankPage]"
  by (simp add: addPage_room docOf_def wfApp_def list_all_iff nth_append)

lemma removePage_decline: "removePage False i s = s"
  by (simp add: removePage_def)

lemma removePage_last:
  "splice1 (pages s) i = [] \<Longrightarrow>
   removePage True i s = s\<lparr>heap := heap s @ [blankPage], pages := [length (heap s)]\<rparr>"
  by (simp add: removePage_def alloc_def)

lemma removePage_more:
  "splice1 (pages s) i \<noteq> [] \<Longrightarrow> removePage True i s = s\<lparr>pages := splice1 (pages s) i\<rparr>"
  by (simp add: removePage_def)

lemma removePage_doc:
  "removePage True i s = s' \<Longrightarrow>
   docOf s' = (if splice1 (docOf s) i = [] then [blankPage] else splice1 (docOf s) i)"
  by (cases "splice1 (pages s) i = []")
     (auto simp: removePage_last removePage_more docOf_def splice1_map)

lemma resetAll_doc: "docOf (resetAll True s) = [blankPage]"
  by (simp add: resetAll_def alloc_def docOf_def)

lemma docShape_blank: "docShape [blankPage]"
  by (simp add: docShape_def blankPage_def maxPages_def)

lemma length_blankPage: "length blankPage = 100"
  by (simp add: blankPage_def cellsPerPage_def)

lemma nth_blankPage: "k < 100 \<Longrightarrow> blankPage ! k = JStr []"
  by (simp add: blankPage_def cellsPerPage_def)

subsection \<open>Well-formed states\<close>

lemma handleChange_wf: "wfApp s \<Longrightarrow> handleChange p c v s = Inr s' \<Longrightarrow> wfApp s'"
  by (auto simp: handleChange_def Let_def wfApp_def split: if_splits)

lemma handleKeyDown_wf: "wfApp s \<Longrightarrow> wfApp (handleKeyDown key p c s)"
  by (simp add: handleKeyDown_def wfApp_def split: prod.split)

lemma addPage_wf: "wfApp s \<Longrightarrow> wfApp (addPage s)"
  by (cases "length (pages s) < maxPages")
     (auto simp: addPage_room addPage_full wfApp_def list_all_iff)

lemma removePage_wf:
  assumes wf: "wfApp s"
  shows "wfApp (removePage b i s)"
proof (cases b)
  case False
  with wf show ?thesis by (simp add: removePage_def)
next
  case True
  show ?thesis
  proof (cases "splice1 (pages s) i = []")
    case e: True
    then show ?thesis using True by (simp add: removePage_last wfApp_def)
  next
    case ne: False
    then show ?thesis using True wf set_splice1 [of "pages s" i]
      by (auto simp: removePage_more wfApp_def distinct_splice1 list_all_iff)
  qed
qed

lemma resetAll_wf: "wfApp s \<Longrightarrow> wfApp (resetAll b s)"
  by (simp add: resetAll_def alloc_def wfApp_def)

lemma downloadPDF_wf: "wfApp s \<Longrightarrow> wfApp (snd (downloadPDF toBlob s))"
  by (simp add: downloadPDF_def wfApp_def split: sum.split)

lemma those_arrayItems:
  "list_all isPage ps \<Longrightarrow> \<exists>d. those (map arrayItems ps) = Some d \<and> map JArr d = ps"
proof (induction ps)
  case Nil
  then show ?case by simp
next
  case (Cons p ps)
  then obtain cells where "p = JArr cells" by (cases p) auto
  with Cons show ?case by auto
qed

lemma docOf_mount:
  "docOf \<lparr>heap = d, pages = [0..<length d], alerts = al, focused = f, downloads = dl\<rparr> = d"
  by (simp add: docOf_def map_nth)

text \<open>A value of the accepted shape mounts, as itself, to a well-formed state.\<close>

lemma mountApp_shapeOk:
  assumes "shapeOk v"
  shows "\<exists>st. mountApp v = Some st \<and> wfApp st \<and> JArr (map JArr (docOf st)) = v"
proof -
  from assms obtain ps where v: "v = JArr ps" and ps: "list_all isPage ps"
    by (cases v) auto
  from those_arrayItems [OF ps] obtain d where d: "those (map arrayItems ps) = Some d"
    and m: "map JArr d = ps" by blast
  show ?thesis
    using d m by (simp add: mountApp_def v docOf_mount wfApp_def list_all_iff)
qed

lemma shapeOk_initializePages: "initializePages P r = Inr v \<Longrightarrow> shapeOk v"
  by (auto simp: initializePages_def tryRestore_def blankPage_def
      split: option.splits sum.splits if_splits)

text \<open>
  Every state the application reaches is well-formed: in particular no page object is
  ever shared by two pages of the document.
\<close>

lemma reachable_wf: "reachable P r s \<Longrightarrow> wfApp s"
proof (induction rule: reachable.induct)
  case (mounted v s)
  from mounted(1) have "shapeOk v" by (rule shapeOk_initializePages)
  with mountApp_shapeOk [of v] mounted(2) show ?case by auto
qed (auto intro: handleChange_wf handleKeyDown_wf addPage_wf removePage_wf resetAll_wf
      downloadPDF_wf)

subsection \<open>The sample data\<close>

lemma sampleParse_brace: "sampleParse ''{'' = Inl SyntaxError"
  by (simp add: sampleParse_def sixPagesText_def pageText_def)

lemma sampleParse_short: "sampleParse ''[[]]'' = Inr (JArr [JArr []])"
  by (simp add: sampleParse_def sixPagesText_def pageText_def)

lemma sampleParse_six: "sampleParse sixPagesText = Inr sixPages"
  by (simp add: sampleParse_def sixPagesText_def pageText_def)

lemma sixPagesText_nonempty: "sixPagesText \<noteq> []"
  by (simp add: sixPagesText_def)

lemma shapeOk_sixPages: "shapeOk sixPages"
  by (simp add: sixPages_def cellsPerPage_def list_all_iff)

lemma wf_onePage: "wfApp onePage"
  by (simp add: onePage_def wfApp_def)

lemma wf_twoPages: "wfApp twoPages"
  by (simp add: twoPages_def wfApp_def)

lemma wf_fivePages: "wfApp fivePages"
  by (simp add: fivePages_def wfApp_def)

lemma docOf_onePage: "docOf onePage = [blankPage]"
  by (simp add: onePage_def docOf_def)

lemma docOf_twoPages: "docOf twoPages = [blankPage, replicate 100 (JStr ''A'')]"
  by (simp add: twoPages_def docOf_def)

subsection \<open>Restoring\<close>

text \<open>
  C1, as the code has it. Whenever the read of the storage slot returns,
  \<^verbatim>\<open>initializePages\<close> returns a value: when the slot was empty (\<^verbatim>\<open>null\<close>), when its text
  does not parse, or when the parsed value is not a non-empty array of arrays of 100
  cells, the result is one blank page of 100 empty strings; when the parsed value has
  that shape, the result is the parsed value itself. The value returned always has the
  shape. (The empty string is falsy and is no JSON text: it is not handed to the
  parser.) An exception of the read itself is not caught: it leaves the function.
\<close>

theorem initializePages_cases:
  "(saved = None \<longrightarrow> initializePages P (Inr saved) = Inr (JArr [JArr blankPage])) \<and>
   (saved = Some s \<and> P s = Inl e
        \<longrightarrow> initializePages P (Inr saved) = Inr (JArr [JArr blankPage])) \<and>
   (saved = Some s \<and> P s = Inr v \<and> \<not> shapeOk v
        \<longrightarrow> initializePages P (Inr saved) = Inr (JArr [JArr blankPage])) \<and>
   (saved = Some s \<and> s \<noteq> [] \<and> P s = Inr v \<and> shapeOk v
        \<longrightarrow> initializePages P (Inr saved) = Inr v) \<and>
   (\<exists>d. initializePages P (Inr saved) = Inr d \<and> shapeOk d) \<and>
   initializePages P (Inl x) = Inl x \<and>
   length blankPage = 100 \<and> list_all (\<lambda>c. c = JStr []) blankPage"
  by (auto simp: initializePages_def tryRestore_def blankPage_def cellsPerPage_def
      list_all_iff split: option.splits sum.splits)

theorem initializePages_cases_witness:
  "initializePages sampleParse (Inr None) = Inr (JArr [JArr blankPage]) \<and>
   initializePages sampleParse (Inr (Some ''{'')) = Inr (JArr [JArr blankPage]) \<and>
   initializePages sampleParse (Inr (Some ''[[]]'')) = Inr (JArr [JArr blankPage]) \<and>
   initializePages sampleParse (Inr (Some sixPagesText)) = Inr sixPages"
  using initializePages_cases [of None sampleParse]
    initializePages_cases [of "Some ''{''" sampleParse "''{''" SyntaxError]
    initializePages_cases [of "Some ''[[]]''" sampleParse "''[[]]''" _ "JArr [JArr []]"]
    initializePages_cases [of "Some sixPagesText" sampleParse sixPagesText _ sixPages]
    sampleParse_brace sampleParse_short sampleParse_six sixPagesText_nonempty
    shapeOk_sixPages
  by (simp add: cellsPerPage_def)

text \<open>
  C1, as it is written, fails where the browser blocks storage: the read throws before
  the \<^verbatim>\<open>try\<close> is entered, and \<^verbatim>\<open>initializePages\<close> returns no document.
\<close>

theorem initializePages_read_throws:
  "initializePages sampleParse (Inl SecurityError) = Inl SecurityError"
  by (simp add: initializePages_def)

text \<open>
  C10. The page maximum is not checked on restore: the saved six-page document, every
  page 100 strings, is accepted as it is, and the application starts with six pages,
  one more than \<open>maxPages\<close>.
\<close>

theorem initializePages_above_max:
  assumes "s \<noteq> []" and "P s = Inr sixPages"
  shows "initializePages P (Inr (Some s)) = Inr sixPages \<and>
         (\<exists>st. mountApp sixPages = Some st \<and>
               docOf st = replicate 6 (replicate 100 (JStr ''Ram'')) \<and>
               maxPages < length (docOf st) \<and> \<not> docShape (docOf st))"
proof -
  have sh: "shapeOk sixPages" by (rule shapeOk_sixPages)
  with assms have r: "initializePages P (Inr (Some s)) = Inr sixPages"
    by (simp add: initializePages_def tryRestore_def)
  from mountApp_shapeOk [OF sh] obtain st where m: "mountApp sixPages = Some st"
    and d: "JArr (map JArr (docOf st)) = sixPages" by blast
  from d have "map JArr (docOf st) = map JArr (replicate 6 (replicate 100 (JStr ''Ram'')))"
    by (simp add: sixPages_def)
  then have "docOf st = replicate 6 (replicate 100 (JStr ''Ram''))"
    by (rule map_injective) (simp add: inj_on_def)
  moreover from this have "length (docOf st) = 6"
    by (simp only: length_replicate)
  ultimately show ?thesis
    using m r by (simp add: maxPages_def docShape_def del: length_docOf)
qed

theorem initializePages_above_max_witness:
  "\<exists>v st. initializePages sampleParse (Inr (Some sixPagesText)) = Inr v \<and>
          mountApp v = Some st \<and> length (docOf st) = 6"
proof -
  from initializePages_above_max
    [of sixPagesText sampleParse, OF sixPagesText_nonempty sampleParse_six]
  obtain st where "initializePages sampleParse (Inr (Some sixPagesText)) = Inr sixPages"
    and "mountApp sixPages = Some st"
    and "docOf st = replicate 6 (replicate 100 (JStr ''Ram''))" by blast
  moreover from this have "length (docOf st) = 6" by (simp only: length_replicate)
  ultimately show ?thesis by blast
qed

subsection \<open>Editing a cell\<close>

text \<open>
  C6. In a well-formed state, \<^verbatim>\<open>handleChange\<close> at a page and a cell that exist returns a
  state: the document has as many pages as before, every page keeps its length, the
  cell addressed holds the value typed, and every other cell of every page holds what it
  held.
\<close>

theorem handleChange_frame:
  assumes wf: "wfApp s" and p: "p < length (pages s)" and c: "c < length (docOf s ! p)"
  shows "\<exists>s'. handleChange p c v s = Inr s' \<and> length (docOf s') = length (docOf s) \<and>
     (\<forall>q k. q < length (docOf s) \<and> k < length (docOf s ! q) \<longrightarrow>
        length (docOf s' ! q) = length (docOf s ! q) \<and>
        docOf s' ! q ! k = (if q = p \<and> k = c then JStr v else docOf s ! q ! k))"
proof -
  from p obtain s' where h: "handleChange p c v s = Inr s'"
    by (simp add: handleChange_Inr)
  from handleChange_doc [OF wf p h]
  have d: "docOf s' = (docOf s)[p := js_set (docOf s ! p) c (JStr v)]" .
  have l: "length (docOf s') = length (docOf s)"
    by (simp only: d length_list_update)
  have "length (docOf s' ! q) = length (docOf s ! q) \<and>
        docOf s' ! q ! k = (if q = p \<and> k = c then JStr v else docOf s ! q ! k)"
    if "q < length (docOf s)" and "k < length (docOf s ! q)" for q k
    using that c by (cases "q = p") (simp_all add: d length_js_set_in nth_js_set_in)
  with h l show ?thesis by blast
qed

theorem handleChange_frame_witness:
  "\<exists>s'. handleChange 1 3 ''Ram'' twoPages = Inr s' \<and>
        docOf s' ! 1 ! 3 = JStr ''Ram'' \<and> docOf s' ! 1 ! 4 = JStr ''A'' \<and>
        docOf s' ! 0 ! 3 = JStr []"
proof -
  have p: "1 < length (pages twoPages)" by (simp add: twoPages_def)
  have c: "3 < length (docOf twoPages ! 1)" by (simp add: docOf_twoPages)
  from handleChange_frame [OF wf_twoPages p c, of "''Ram''"]
  obtain s' where h: "handleChange 1 3 ''Ram'' twoPages = Inr s'"
    and f: "\<And>q k. q < length (docOf twoPages) \<and> k < length (docOf twoPages ! q) \<Longrightarrow>
        docOf s' ! q ! k = (if q = 1 \<and> k = 3 then JStr ''Ram'' else docOf twoPages ! q ! k)"
    by blast
  have "docOf s' ! 1 ! 3 = JStr ''Ram''"
    using f [of 1 3] by (simp add: docOf_twoPages del: length_docOf)
  moreover have "docOf s' ! 1 ! 4 = JStr ''A''"
    using f [of 1 4] by (simp add: docOf_twoPages del: length_docOf)
  moreover have "docOf s' ! 0 ! 3 = JStr []"
    using f [of 0 3]
    by (simp add: docOf_twoPages length_blankPage nth_blankPage del: length_docOf)
  ultimately show ?thesis using h by simp
qed

text \<open>
  C7. Editing is idempotent: in a well-formed state, \<^verbatim>\<open>handleChange\<close> at a page and a
  cell that exist returns a state on which the same call returns that same state.
\<close>

theorem handleChange_idem:
  assumes wf: "wfApp s" and p: "p < length (pages s)" and c: "c < length (docOf s ! p)"
  shows "\<exists>s'. handleChange p c v s = Inr s' \<and> handleChange p c v s' = Inr s'"
proof -
  from p obtain s' where h: "handleChange p c v s = Inr s'"
    by (simp add: handleChange_Inr)
  with handleChange_twice [OF wf h] show ?thesis by simp
qed

theorem handleChange_idem_witness:
  "\<exists>s'. handleChange 1 3 ''Ram'' twoPages = Inr s' \<and> handleChange 1 3 ''Ram'' s' = Inr s'"
proof -
  have p: "1 < length (pages twoPages)" by (simp add: twoPages_def)
  have c: "3 < length (docOf twoPages ! 1)" by (simp add: docOf_twoPages)
  from handleChange_idem [OF wf_twoPages p c] show ?thesis .
qed

subsection \<open>Moving the focus\<close>

text \<open>
  C8. From a cell \<open>c < 100\<close> of page \<open>p\<close>, the next cell is \<open>(c + 1) mod 100\<close>, on page
  \<open>p + 1\<close> when \<open>c = 99\<close> and on page \<open>p\<close> otherwise. \<^verbatim>\<open>handleKeyDown\<close> changes neither the
  pages nor the page objects; when the next page does not exist the state is left as it
  was; on Enter, when the next cell has an input, the focus moves there.
\<close>

theorem handleKeyDown_next:
  assumes c: "c < cellsPerPage"
  shows "nextCell p c = ((if c = 99 then p + 1 else p), (c + 1) mod 100) \<and>
         pages (handleKeyDown key p c s) = pages s \<and>
         heap (handleKeyDown key p c s) = heap s \<and>
         (\<not> fst (nextCell p c) < length (pages s) \<longrightarrow> handleKeyDown key p c s = s) \<and>
         (key = ''Enter'' \<and> hasInput s (fst (nextCell p c)) (snd (nextCell p c)) \<longrightarrow>
            focused (handleKeyDown key p c s) = Some (nextCell p c))"
proof -
  have n: "nextCell p c = ((if c = 99 then p + 1 else p), (c + 1) mod 100)"
    using c by (auto simp: nextCell_def cellsPerPage_def Let_def)
  show ?thesis
    unfolding n by (auto simp: handleKeyDown_def n hasInput_def)
qed

theorem handleKeyDown_next_witness:
  "nextCell 0 99 = (1, 0) \<and> handleKeyDown ''Enter'' 0 99 onePage = onePage \<and>
   nextCell 0 3 = (0, 4) \<and> focused (handleKeyDown ''Enter'' 0 3 onePage) = Some (0, 4)"
proof -
  have a: "(99::nat) < cellsPerPage" and b: "(3::nat) < cellsPerPage"
    by (simp_all add: cellsPerPage_def)
  have i: "hasInput onePage 0 4"
    by (simp add: hasInput_def docOf_onePage nth_blankPage length_blankPage)
       (simp add: onePage_def)
  have n: "\<not> 1 < length (pages onePage)" by (simp add: onePage_def)
  from handleKeyDown_next [OF a, of 0 "''Enter''" onePage]
    handleKeyDown_next [OF b, of 0 "''Enter''" onePage] i n
  show ?thesis by simp
qed

subsection \<open>Adding and removing pages\<close>

text \<open>
  C3. In a well-formed state with \<open>maxPages\<close> pages, \<^verbatim>\<open>addPage\<close> leaves the pages and the
  page objects as they are and shows the alert; with fewer pages, it appends one blank
  page of 100 empty strings to the document, whose other pages stay, and shows nothing.
\<close>

theorem addPage_cases:
  assumes wf: "wfApp s"
  shows "(length (pages s) = maxPages \<longrightarrow>
            docOf (addPage s) = docOf s \<and> pages (addPage s) = pages s \<and>
            heap (addPage s) = heap s \<and>
            alerts (addPage s) = alerts s @ [''Maximum 5 pages allowed.'']) \<and>
         (length (pages s) < maxPages \<longrightarrow>
            docOf (addPage s) = docOf s @ [blankPage] \<and> alerts (addPage s) = alerts s \<and>
            blankPage = replicate 100 (JStr []))"
proof (intro conjI impI)
  assume "length (pages s) < maxPages"
  then show "docOf (addPage s) = docOf s @ [blankPage]" using wf by (simp add: addPage_doc)
qed (simp_all add: addPage_full addPage_room docOf_def blankPage_def cellsPerPage_def)

theorem addPage_cases_witness:
  "docOf (addPage fivePages) = docOf fivePages \<and>
   alerts (addPage fivePages) = [''Maximum 5 pages allowed.''] \<and>
   docOf (addPage onePage) = [blankPage, blankPage] \<and>
   alerts (addPage onePage) = []"
  using addPage_cases [OF wf_fivePages] addPage_cases [OF wf_onePage]
  by (simp add: maxPages_def fivePages_def onePage_def docOf_def)

text \<open>
  C4. Once confirmed, \<^verbatim>\<open>removePage\<close> at a page that exists gives the document without
  that page, the others in their order; from a document of one page it gives one blank
  page of 100 empty strings. The result is never empty.
\<close>

theorem removePage_cases:
  assumes i: "i < length (pages s)"
  shows "docOf (removePage True i s) =
           (if length (docOf s) = 1 then [blankPage]
            else take i (docOf s) @ drop (Suc i) (docOf s)) \<and>
         docOf (removePage True i s) \<noteq> [] \<and>
         blankPage = replicate 100 (JStr [])"
proof -
  have "length (splice1 (docOf s) i) = length (docOf s) - 1"
    using i by (simp add: splice1_in)
  moreover have "(splice1 (docOf s) i = []) = (length (splice1 (docOf s) i) = 0)"
    by simp
  ultimately have e: "(splice1 (docOf s) i = []) = (length (docOf s) = 1)"
    using i by (simp only: length_docOf) arith
  have "docOf (removePage True i s) =
        (if splice1 (docOf s) i = [] then [blankPage] else splice1 (docOf s) i)"
    by (rule removePage_doc) simp
  then have r: "docOf (removePage True i s) =
        (if length (docOf s) = 1 then [blankPage] else splice1 (docOf s) i)"
    by (simp only: e)
  have ne: "docOf (removePage True i s) \<noteq> []"
  proof (cases "length (docOf s) = 1")
    case True
    then show ?thesis by (simp add: r)
  next
    case False
    with e have "splice1 (docOf s) i \<noteq> []" by simp
    with False show ?thesis by (simp add: r)
  qed
  have "blankPage = replicate 100 (JStr [])"
    by (simp add: blankPage_def cellsPerPage_def)
  with r ne show ?thesis
    by (simp add: splice1_def)
qed

theorem removePage_cases_witness:
  "docOf (removePage True 0 onePage) = [blankPage] \<and>
   docOf (removePage True 0 twoPages) = [replicate 100 (JStr ''A'')]"
proof -
  have a: "0 < length (pages onePage)" by (simp add: onePage_def)
  have b: "0 < length (pages twoPages)" by (simp add: twoPages_def)
  from removePage_cases [OF a] removePage_cases [OF b] show ?thesis
    by (simp add: docOf_onePage docOf_twoPages del: length_docOf)
qed

subsection \<open>The shape of the document\<close>

text \<open>
  C5. Every mutation keeps the shape: from a well-formed state whose document has 1 to 5
  pages of 100 cells each, \<^verbatim>\<open>handleChange\<close> at a page that exists and a cell below 100,
  \<^verbatim>\<open>addPage\<close>, \<^verbatim>\<open>removePage\<close> at a page that exists and \<^verbatim>\<open>resetAll\<close> (each of the two
  confirmed or declined) give a document of 1 to 5 pages of 100 cells each.
\<close>

theorem docShape_preserved:
  assumes wf: "wfApp s" and sh: "docShape (docOf s)"
  shows "(p < length (pages s) \<and> c < cellsPerPage \<longrightarrow>
            (\<exists>s'. handleChange p c v s = Inr s' \<and> docShape (docOf s'))) \<and>
         docShape (docOf (addPage s)) \<and>
         (i < length (pages s) \<longrightarrow> docShape (docOf (removePage b i s))) \<and>
         docShape (docOf (resetAll b' s))"
proof (intro conjI impI)
  assume a: "p < length (pages s) \<and> c < cellsPerPage"
  then have p: "p < length (pages s)" and c: "c < cellsPerPage" by simp_all
  from p obtain s' where h: "handleChange p c v s = Inr s'"
    by (simp add: handleChange_Inr)
  have d: "docOf s' = (docOf s)[p := js_set (docOf s ! p) c (JStr v)]"
    by (rule handleChange_doc [OF wf p h])
  from sh p have lp: "length (docOf s ! p) = cellsPerPage"
    by (simp add: docShape_def list_all_length)
  with c have "length (js_set (docOf s ! p) c (JStr v)) = cellsPerPage"
    by (simp add: length_js_set_in)
  with sh p have "docShape (docOf s')"
    unfolding d docShape_def list_all_length by (auto simp: nth_list_update)
  with h show "\<exists>s'. handleChange p c v s = Inr s' \<and> docShape (docOf s')" by simp
next
  show "docShape (docOf (addPage s))"
  proof (cases "length (pages s) < maxPages")
    case True
    with sh show ?thesis
      by (simp add: addPage_doc [OF wf True] docShape_def blankPage_def)
  next
    case False
    with sh show ?thesis by (simp add: addPage_full docOf_def)
  qed
next
  assume i: "i < length (pages s)"
  show "docShape (docOf (removePage b i s))"
  proof (cases b)
    case False
    with sh show ?thesis by (simp add: removePage_def)
  next
    case True
    have r: "docOf (removePage True i s) =
          (if splice1 (docOf s) i = [] then [blankPage] else splice1 (docOf s) i)"
      by (rule removePage_doc) simp
    have "docShape (docOf (removePage True i s))"
    proof (cases "splice1 (docOf s) i = []")
      case e: True
      then show ?thesis by (simp add: r docShape_blank)
    next
      case ne: False
      have "set (splice1 (docOf s) i) \<subseteq> set (docOf s)" by (rule set_splice1)
      moreover have "length (splice1 (docOf s) i) = length (docOf s) - 1"
        using i by (simp add: splice1_in)
      moreover have "1 \<le> length (splice1 (docOf s) i)"
        using ne by (cases "splice1 (docOf s) i") simp_all
      ultimately show ?thesis
        using sh ne unfolding r docShape_def list_all_iff by auto
    qed
    with True show ?thesis by simp
  qed
next
  show "docShape (docOf (resetAll b' s))"
  proof (cases b')
    case True
    then show ?thesis by (simp add: resetAll_doc docShape_blank)
  next
    case False
    with sh show ?thesis by (simp add: resetAll_def)
  qed
qed

theorem docShape_preserved_witness:
  "(\<exists>s'. handleChange 1 99 ''Ram'' twoPages = Inr s' \<and> docShape (docOf s')) \<and>
   docShape (docOf (addPage twoPages)) \<and>
   docShape (docOf (removePage True 1 twoPages)) \<and>
   docShape (docOf (resetAll True twoPages))"
proof -
  have sh: "docShape (docOf twoPages)"
    by (simp add: docOf_twoPages docShape_def maxPages_def length_blankPage cellsPerPage_def)
  have "(1::nat) < length (pages twoPages) \<and> (99::nat) < cellsPerPage"
    by (simp add: twoPages_def cellsPerPage_def)
  with docShape_preserved [OF wf_twoPages sh, of 1 99 "''Ram''" 1 True True]
  show ?thesis by simp
qed

subsection \<open>The PDF\<close>

lemma concat_pdfGrid:
  "concat (pdfGrid page) = map (\<lambda>k. js_or (js_index page k) (JStr '' '')) [0..<100]"
  using concat_rows [of "\<lambda>k. js_or (js_index page k) (JStr '' '')" 5 20]
  by (simp add: pdfGrid_def pdfRow_def [abs_def] Let_def)

lemma length_MantraPDF: "length (MantraPDF d) = length d"
  by (simp add: MantraPDF_def)

lemma nth_MantraPDF:
  "i < length d \<Longrightarrow>
   MantraPDF d ! i =
     \<lparr>header = headerLabel, pageNumber = (''Page '', i + 1), grid = pdfGrid (d ! i)\<rparr>"
  by (simp add: MantraPDF_def nth_enumerate_eq)

text \<open>
  Whatever the cells are, slot \<open>k\<close> of a page's grid, in row-major order, is the cell
  \<open>k\<close> when it exists and is truthy, and a single space otherwise.
\<close>

lemma pdfGrid_slot:
  "k < 100 \<Longrightarrow> concat (pdfGrid page) ! k = js_or (js_index page k) (JStr '' '')"
  by (simp add: concat_pdfGrid)

text \<open>
  C2. \<^verbatim>\<open>MantraPDF\<close> gives one print page per page of the document, in order. Print page
  \<open>i\<close> carries the header label and the page number \<open>i + 1\<close>; its grid is 20 rows of 5
  slots, 100 slots in all; for a page of 100 cells, the slot \<open>k\<close> in row-major order (row
  \<open>k div 5\<close>, column \<open>k mod 5\<close>) shows the string held by cell \<open>k\<close>, or a single space when
  that string is empty.
\<close>

theorem MantraPDF_pages:
  "length (MantraPDF d) = length d \<and>
   (i < length d \<longrightarrow>
      header (MantraPDF d ! i) = headerLabel \<and>
      pageNumber (MantraPDF d ! i) = (''Page '', i + 1) \<and>
      length (grid (MantraPDF d ! i)) = 20 \<and>
      list_all (\<lambda>row. length row = 5) (grid (MantraPDF d ! i)) \<and>
      length (concat (grid (MantraPDF d ! i))) = 100 \<and>
      (k < 100 \<and> length (d ! i) = cellsPerPage \<and> d ! i ! k = JStr t \<longrightarrow>
         concat (grid (MantraPDF d ! i)) ! k = (if t = [] then JStr '' '' else JStr t) \<and>
         grid (MantraPDF d ! i) ! (k div 5) ! (k mod 5) =
           concat (grid (MantraPDF d ! i)) ! k))"
proof (intro conjI impI)
  show "length (MantraPDF d) = length d" by (rule length_MantraPDF)
next
  assume i: "i < length d"
  show "header (MantraPDF d ! i) = headerLabel" by (simp add: nth_MantraPDF i)
  show "pageNumber (MantraPDF d ! i) = (''Page '', i + 1)" by (simp add: nth_MantraPDF i)
  show "length (grid (MantraPDF d ! i)) = 20" by (simp add: nth_MantraPDF i pdfGrid_def)
  show "list_all (\<lambda>row. length row = 5) (grid (MantraPDF d ! i))"
    by (simp add: nth_MantraPDF i pdfGrid_def pdfRow_def list_all_iff)
  show "length (concat (grid (MantraPDF d ! i))) = 100"
    by (simp add: nth_MantraPDF i concat_pdfGrid)
  assume a: "k < 100 \<and> length (d ! i) = cellsPerPage \<and> d ! i ! k = JStr t"
  then have k: "k < 100" and l: "length (d ! i) = 100" and t: "d ! i ! k = JStr t"
    by (simp_all add: cellsPerPage_def)
  show "concat (grid (MantraPDF d ! i)) ! k = (if t = [] then JStr '' '' else JStr t)"
    using k l t by (simp add: nth_MantraPDF i concat_pdfGrid js_index_def js_or_def)
  have r: "k div 5 < 20" and cc: "k mod 5 < 5" using k by simp_all
  have "grid (MantraPDF d ! i) ! (k div 5) ! (k mod 5) =
        js_or (js_index (d ! i) (k div 5 * 5 + k mod 5)) (JStr '' '')"
    using r cc by (simp add: nth_MantraPDF i pdfGrid_def pdfRow_def Let_def)
  also have "k div 5 * 5 + k mod 5 = k" by simp
  finally show "grid (MantraPDF d ! i) ! (k div 5) ! (k mod 5) =
      concat (grid (MantraPDF d ! i)) ! k"
    using k by (simp add: nth_MantraPDF i concat_pdfGrid)
qed

theorem MantraPDF_pages_witness:
  "length (MantraPDF (docOf twoPages)) = 2 \<and>
   pageNumber (MantraPDF (docOf twoPages) ! 1) = (''Page '', 2) \<and>
   concat (grid (MantraPDF (docOf twoPages) ! 0)) ! 7 = JStr '' '' \<and>
   grid (MantraPDF (docOf twoPages) ! 1) ! 1 ! 2 = JStr ''A''"
  using MantraPDF_pages [of "docOf twoPages" 0 7 "[]"]
    MantraPDF_pages [of "docOf twoPages" 1 7 "''A''"]
  by (simp add: docOf_twoPages length_blankPage nth_blankPage cellsPerPage_def
      del: length_docOf)

text \<open>
  C9. \<^verbatim>\<open>downloadPDF\<close> leaves the pages and the page objects, hence the document, as they
  were, whether the rendering gives a blob or fails.
\<close>

theorem downloadPDF_frame:
  "pages (snd (downloadPDF toBlob s)) = pages s \<and>
   heap (snd (downloadPDF toBlob s)) = heap s \<and>
   docOf (snd (downloadPDF toBlob s)) = docOf s"
  by (simp add: downloadPDF_def docOf_def split: sum.split)

end
